theory Spec2Isabelle
  imports Main "HOL-Library.Multiset"
begin

section \<open>Strings\<close>

text \<open>
  JavaScript strings are sequences of UTF-16 code units. Identifiers, messages, the
  composer text of the link preview and the comment text are modelled as
  \<^typ>\<open>string\<close>, read as code units below 256 (ASCII and the Latin-1 supplement). The
  text that the search lower-cases (post content, resource title, username and the query)
  is modelled with all its code units, see \<open>ustring\<close> below.
\<close>

definition isWhiteSpace :: "char \<Rightarrow> bool" where
  \<comment> \<open>the class \<open>\s\<close> of a regular expression, which is also what \<open>trim\<close> strips:
      TAB, LF, VT, FF, CR, SPACE, NBSP\<close>
  "isWhiteSpace c = (c \<in> set [CHR 0x09, CHR 0x0A, CHR 0x0B, CHR 0x0C, CHR 0x0D, CHR 0x20, CHR 0xA0])"

definition isLineTerminator :: "char \<Rightarrow> bool" where
  \<comment> \<open>what the regular expression atom \<open>.\<close> refuses: LF and CR\<close>
  "isLineTerminator c = (c \<in> set [CHR 0x0A, CHR 0x0D])"

definition toLowerChar :: "char \<Rightarrow> char" where
  "toLowerChar c =
     (let n = (of_char c :: nat) in
      if (65 \<le> n \<and> n \<le> 90) \<or> (192 \<le> n \<and> n \<le> 222 \<and> n \<noteq> 215)
      then char_of (n + 32) else c)"

definition toLowerCase :: "string \<Rightarrow> string" where
  "toLowerCase s = map toLowerChar s"

fun startsWith :: "'a list \<Rightarrow> 'a list \<Rightarrow> bool" where
  "startsWith s [] = True"
| "startsWith [] (q # qs) = False"
| "startsWith (c # cs) (q # qs) = (c = q \<and> startsWith cs qs)"

fun string_includes :: "'a list \<Rightarrow> 'a list \<Rightarrow> bool" where
  \<comment> \<open>\<open>s.includes(q)\<close>: \<open>q\<close> occurs in \<open>s\<close> as a contiguous run\<close>
  "string_includes [] q = (q = [])"
| "string_includes (c # cs) q = (startsWith (c # cs) q \<or> string_includes cs q)"

definition trim :: "string \<Rightarrow> string" where
  "trim s = rev (dropWhile isWhiteSpace (rev (dropWhile isWhiteSpace s)))"

subsection \<open>Text with all its code units\<close>

text \<open>
  A \<open>ustring\<close> is a JavaScript string as the list of its UTF-16 code units, each a number
  below 65536. \<open>units\<close> gives the code units of a text of units below 256.

  \<open>String.prototype.toLowerCase\<close> is a built-in of the language, defined by the Unicode
  case tables, and it is not the same map on every unit: a capital sigma becomes the final
  small sigma when a cased letter stands before it (case-ignorable units skipped) and none
  stands after it, and the small sigma otherwise. The search of the component takes the
  lower-casing function as a parameter \<open>lc\<close>, so that what is proved of it holds for the
  built-in whatever the tables say. \<open>toLowerCase16\<close> is the built-in on text of Basic Latin
  and the Greek letters U+0391 to U+03A9 and U+03B1 to U+03C9, which is all that the
  examples use; it returns every other unit as it is, so text with other cased letters
  is outside this one definition.
\<close>

type_synonym ustring = "nat list"

definition units :: "string \<Rightarrow> ustring" where
  "units s = map of_char s"

definition isCased16 :: "nat \<Rightarrow> bool" where
  \<comment> \<open>the cased letters of the repertoire: A-Z, a-z, the Greek capital and small letters\<close>
  "isCased16 c =
     ((0x41 \<le> c \<and> c \<le> 0x5A) \<or> (0x61 \<le> c \<and> c \<le> 0x7A)
      \<or> (0x391 \<le> c \<and> c \<le> 0x3A1) \<or> (0x3A3 \<le> c \<and> c \<le> 0x3A9)
      \<or> (0x3B1 \<le> c \<and> c \<le> 0x3C9))"

definition isCaseIgnorable16 :: "nat \<Rightarrow> bool" where
  \<comment> \<open>the case-ignorable units of the repertoire: apostrophe, full stop, colon,
      circumflex accent, grave accent\<close>
  "isCaseIgnorable16 c = (c \<in> set [0x27, 0x2E, 0x3A, 0x5E, 0x60])"

definition casedNext :: "ustring \<Rightarrow> bool" where
  \<comment> \<open>the first unit that is not case-ignorable exists and is a cased letter\<close>
  "casedNext s = (case dropWhile isCaseIgnorable16 s of [] \<Rightarrow> False | c # rest \<Rightarrow> isCased16 c)"

definition lowerUnit :: "ustring \<Rightarrow> nat \<Rightarrow> ustring \<Rightarrow> nat" where
  \<comment> \<open>one unit in its context: the units to its left, nearest first, and the units to its right\<close>
  "lowerUnit left c right =
     (if c = 0x3A3 then (if casedNext left \<and> \<not> casedNext right then 0x3C2 else 0x3C3)
      else if (0x41 \<le> c \<and> c \<le> 0x5A) \<or> (0x391 \<le> c \<and> c \<le> 0x3A1) \<or> (0x3A4 \<le> c \<and> c \<le> 0x3A9)
      then c + 32
      else c)"

fun lowerFrom :: "ustring \<Rightarrow> ustring \<Rightarrow> ustring" where
  "lowerFrom left [] = []"
| "lowerFrom left (c # right) = lowerUnit left c right # lowerFrom (c # left) right"

definition toLowerCase16 :: "ustring \<Rightarrow> ustring" where
  "toLowerCase16 s = lowerFrom [] s"

definition lowerAscii :: "nat \<Rightarrow> nat" where
  \<comment> \<open>the lower-casing of Basic Latin, one unit at a time\<close>
  "lowerAscii c = (if 0x41 \<le> c \<and> c \<le> 0x5A then c + 32 else c)"

definition basicLatin :: "ustring \<Rightarrow> bool" where
  \<comment> \<open>text of the units U+0000 to U+007F only\<close>
  "basicLatin s = list_all (\<lambda>c. c < 0x80) s"

section \<open>Link preview resolver\<close>

text \<open>
  \<^verbatim>\<open>const URL_REGEX = /https?:\/\/[^\s/$.?#].[^\s]*/i;\<close>
  The matcher follows the pattern atom by atom. \<open>matchRest\<close> is the pattern after the
  optional \<open>s\<close>: the literal \<open>://\<close>, one unit that is neither white space nor one of
  \<open>/ $ . ? #\<close>, one unit that is no line terminator, then the longest run of units that are
  not white space. \<open>matchHere\<close> is one attempt at a fixed start: \<open>http\<close> in either case,
  then the greedy optional \<open>s\<close> (taken first, given back when the rest fails).
\<close>

definition matchRest :: "string \<Rightarrow> string option" where
  "matchRest s =
     (case s of
        c1 # c2 # c3 # d # e # rest \<Rightarrow>
          if c1 = CHR '':'' \<and> c2 = CHR ''/'' \<and> c3 = CHR ''/''
             \<and> \<not> isWhiteSpace d \<and> d \<notin> set ''/$.?#''
             \<and> \<not> isLineTerminator e
          then Some (c1 # c2 # c3 # d # e # takeWhile (\<lambda>c. \<not> isWhiteSpace c) rest)
          else None
      | _ \<Rightarrow> None)"

definition matchHere :: "string \<Rightarrow> string option" where
  "matchHere s =
     (if toLowerCase (take 4 s) = ''http'' then
        (let r = drop 4 s in
         (case (if r \<noteq> [] \<and> toLowerChar (hd r) = CHR ''s'' then matchRest (tl r) else None) of
            Some m \<Rightarrow> Some (take 4 s @ hd r # m)
          | None \<Rightarrow> (case matchRest r of Some m \<Rightarrow> Some (take 4 s @ m) | None \<Rightarrow> None)))
      else None)"

fun matchUrl :: "string \<Rightarrow> string option" where
  \<comment> \<open>\<open>text.match(URL_REGEX)\<close>, read at index 0: the leftmost match, or null\<close>
  "matchUrl [] = matchHere []"
| "matchUrl (c # cs) = (case matchHere (c # cs) of Some m \<Rightarrow> Some m | None \<Rightarrow> matchUrl cs)"

record LinkPreview =
  url :: string
  title :: string
  description :: "string option"
  image :: "string option"

definition fetchRichLinkPreview :: "string \<Rightarrow> LinkPreview" where
  "fetchRichLinkPreview u =
     (if string_includes u ''google.com'' then
        \<lparr> url = u,
          title = ''Google - Search the world's information'',
          description = Some ''Search the world's information, including webpages, images, videos and more.'',
          image = Some ''https://www.google.com/images/branding/googlelogo/1x/googlelogo_color_272x92dp.png'' \<rparr>
      else if string_includes u ''wikipedia.org'' then
        \<lparr> url = u,
          title = ''Wikipedia, the free encyclopedia'',
          description = Some ''Wikipedia is a free online encyclopedia, created and maintained by a community of volunteer editors through open collaboration and using a wiki-based editing system.'',
          image = Some ''https://upload.wikimedia.org/wikipedia/en/thumb/8/80/Wikipedia-logo-v2.svg/1200px-Wikipedia-logo-v2.svg.png'' \<rparr>
      else \<lparr> url = u, title = u, description = None, image = None \<rparr>)"

definition resolveLinkPreview :: "string \<Rightarrow> LinkPreview option" where
  \<comment> \<open>the debounced effect on the composer text: the preview of the first URL, or null\<close>
  "resolveLinkPreview content = map_option fetchRichLinkPreview (matchUrl content)"

section \<open>Data model\<close>

text \<open>
  The types \<open>Post\<close>, \<open>Like\<close>, \<open>Comment\<close> and \<open>Profile\<close> are imported by the feed component;
  the records below carry the fields the component reads or writes. A field the component
  reads with \<open>?.\<close> or \<open>||\<close> is optional (\<open>None\<close> is \<open>null\<close> or \<open>undefined\<close>).
  \<open>created_at\<close> of a post is timestamp text that the data store writes, at a resolution
  of one microsecond. The record holds the instant the text denotes, in microseconds since
  the epoch; the component reads it only through \<open>new Date(p.created_at).getTime()\<close>,
  which is \<open>getTime\<close> below. The other time stamps are kept as the text the component
  writes (\<open>toISOString\<close>).
\<close>

record User =
  uid :: string

record Profile =
  username :: "ustring option"
  avatar_url :: "string option"
  email :: "string option"
  role :: string
  verification_status :: string

record Like =
  like_id :: int
  like_post_id :: string
  like_user_id :: string
  like_created_at :: string

record Comment =
  comment_id :: string
  comment_post_id :: string
  comment_user_id :: string
  comment_content :: string
  comment_created_at :: string
  comment_profiles :: "Profile option"

record Post =
  post_id :: string
  user_id :: string
  created_at :: int
  post_type :: string
  content :: "ustring option"
  resource_title :: "ustring option"
  resource_category :: "string option"
  resource_contact :: "string option"
  image_url :: "string option"
  link_url :: "string option"
  link_title :: "string option"
  link_description :: "string option"
  link_image :: "string option"
  profiles :: "Profile option"
  likes :: "Like list option"
  comments :: "Comment list option"

text \<open>
  \<open>Partial<Post>\<close>: each key is absent (\<open>None\<close>) or present with a value.
\<close>

record PostPatch =
  patch_post_id :: "string option"
  patch_user_id :: "string option"
  patch_created_at :: "int option"
  patch_post_type :: "string option"
  patch_content :: "ustring option option"
  patch_resource_title :: "ustring option option"
  patch_resource_category :: "string option option"
  patch_resource_contact :: "string option option"
  patch_image_url :: "string option option"
  patch_link_url :: "string option option"
  patch_link_title :: "string option option"
  patch_link_description :: "string option option"
  patch_link_image :: "string option option"
  patch_profiles :: "Profile option option"
  patch_likes :: "Like list option option"
  patch_comments :: "Comment list option option"

definition emptyPatch :: PostPatch where
  "emptyPatch =
     \<lparr> patch_post_id = None, patch_user_id = None, patch_created_at = None,
       patch_post_type = None, patch_content = None, patch_resource_title = None,
       patch_resource_category = None, patch_resource_contact = None,
       patch_image_url = None, patch_link_url = None, patch_link_title = None,
       patch_link_description = None, patch_link_image = None, patch_profiles = None,
       patch_likes = None, patch_comments = None \<rparr>"

definition spread :: "'a \<Rightarrow> 'a option \<Rightarrow> 'a" where
  \<comment> \<open>one key of \<open>{ ...p, ...newPostData }\<close>: the later object wins where it has the key\<close>
  "spread old new = (case new of None \<Rightarrow> old | Some v \<Rightarrow> v)"

definition mergePost :: "Post \<Rightarrow> PostPatch \<Rightarrow> Post" where
  "mergePost p d =
     \<lparr> post_id = spread (post_id p) (patch_post_id d),
       user_id = spread (user_id p) (patch_user_id d),
       created_at = spread (created_at p) (patch_created_at d),
       post_type = spread (post_type p) (patch_post_type d),
       content = spread (content p) (patch_content d),
       resource_title = spread (resource_title p) (patch_resource_title d),
       resource_category = spread (resource_category p) (patch_resource_category d),
       resource_contact = spread (resource_contact p) (patch_resource_contact d),
       image_url = spread (image_url p) (patch_image_url d),
       link_url = spread (link_url p) (patch_link_url d),
       link_title = spread (link_title p) (patch_link_title d),
       link_description = spread (link_description p) (patch_link_description d),
       link_image = spread (link_image p) (patch_link_image d),
       profiles = spread (profiles p) (patch_profiles d),
       likes = spread (likes p) (patch_likes d),
       comments = spread (comments p) (patch_comments d) \<rparr>"

section \<open>Feed state container\<close>

definition updatePostInState :: "string \<Rightarrow> PostPatch \<Rightarrow> Post list \<Rightarrow> Post list" where
  "updatePostInState postId newPostData prevPosts =
     map (\<lambda>p. if post_id p = postId then mergePost p newPostData else p) prevPosts"

definition removePostFromState :: "string \<Rightarrow> Post list \<Rightarrow> Post list" where
  "removePostFromState postId prevPosts = filter (\<lambda>p. post_id p \<noteq> postId) prevPosts"

definition addPostToState :: "Post \<Rightarrow> Post list \<Rightarrow> Post list" where
  "addPostToState newPost prevPosts = newPost # prevPosts"

section \<open>Effects\<close>

text \<open>
  What a handler does besides updating the post list is recorded as a trace: the remote
  calls it awaits, the toasts it shows, the refetch it requests (\<open>fetchPosts()\<close>, whose
  answer arrives later and is not part of the handler's own run) and the navigation.
  A remote call is answered by the data store client, which the component imports: an
  awaited call either resolves with a result whose \<open>error\<close> field is null or an error,
  or it throws.
\<close>

datatype js_error = JsError (message: "string option")

datatype remote_result = Resolved "js_error option" | Rejected js_error

datatype remote_call =
    LikesDelete string string
  | LikesInsert string string
  | CommentsInsert string string string
  | CreateNotification string string string string

datatype effect =
    Remote remote_call
  | ToastInfo string
  | ToastError string
  | ToastSuccess string
  | FetchPosts
  | RouterPush string

definition messageOr :: "js_error \<Rightarrow> string \<Rightarrow> string" where
  \<comment> \<open>\<open>error.message || fallback\<close>: an absent or empty message gives the fallback\<close>
  "messageOr e fallback =
     (case message e of None \<Rightarrow> fallback | Some m \<Rightarrow> if m = [] then fallback else m)"

section \<open>Realtime subscription adapter\<close>

datatype realtime_event =
    PostsInsert Post
  | PostsUpdate PostPatch
  | PostsDelete string
  | LikesChange
  | CommentsChange

fun onRealtimeEvent :: "realtime_event \<Rightarrow> Post list \<Rightarrow> Post list \<times> effect list" where
  "onRealtimeEvent (PostsInsert newPost) posts = (addPostToState newPost posts, [])"
| "onRealtimeEvent (PostsUpdate updatedPost) posts =
     ((case patch_post_id updatedPost of
         None \<Rightarrow> posts
       | Some i \<Rightarrow> updatePostInState i updatedPost posts), [])"
| "onRealtimeEvent (PostsDelete i) posts = (removePostFromState i posts, [])"
| "onRealtimeEvent LikesChange posts = (posts, [FetchPosts])"
| "onRealtimeEvent CommentsChange posts = (posts, [FetchPosts])"

section \<open>Filter/sort projection\<close>

text \<open>
  \<open>Array.prototype.sort(compare)\<close> belongs to the language, not to the repository. It is
  stable, and with a consistent comparator it returns the elements in ascending order of
  the comparator; the stable insertion sort below computes that arrangement.

  The sort works in place, on \<open>result\<close>. \<open>result\<close> starts as the \<open>posts\<close> array of the
  state and is a new array only after a \<open>filter\<close> has run, so with an empty query and the
  filter \<open>all\<close> it is the state array itself that is sorted. \<open>filteredAndSortedPosts\<close>
  therefore returns two lists: the array it hands to the renderer, and the \<open>posts\<close> array
  as the call leaves it.
\<close>

fun insertSorted :: "('a \<Rightarrow> 'a \<Rightarrow> int) \<Rightarrow> 'a \<Rightarrow> 'a list \<Rightarrow> 'a list" where
  "insertSorted cmp x [] = [x]"
| "insertSorted cmp x (y # ys) =
     (if cmp x y \<le> 0 then x # y # ys else y # insertSorted cmp x ys)"

definition arraySort :: "('a \<Rightarrow> 'a \<Rightarrow> int) \<Rightarrow> 'a list \<Rightarrow> 'a list" where
  "arraySort cmp xs = foldr (insertSorted cmp) xs []"

definition likeCount :: "Post \<Rightarrow> int" where
  \<comment> \<open>\<open>a.likes?.length || 0\<close>\<close>
  "likeCount a = (case likes a of None \<Rightarrow> 0 | Some ls \<Rightarrow> int (length ls))"

definition commentCount :: "Post \<Rightarrow> int" where
  \<comment> \<open>\<open>a.comments?.length || 0\<close>\<close>
  "commentCount a = (case comments a of None \<Rightarrow> 0 | Some cs \<Rightarrow> int (length cs))"

definition getTime :: "int \<Rightarrow> int" where
  \<comment> \<open>\<open>new Date(created_at).getTime()\<close>: the instant in whole milliseconds; a \<open>Date\<close> holds no
      finer time, the digits after the third are dropped\<close>
  "getTime t = t div 1000"

definition compareLikes :: "Post \<Rightarrow> Post \<Rightarrow> int" where
  "compareLikes a b =
     (let likesA = likeCount a; likesB = likeCount b in
      if likesB \<noteq> likesA then likesB - likesA
      else getTime (created_at b) - getTime (created_at a))"

definition compareComments :: "Post \<Rightarrow> Post \<Rightarrow> int" where
  "compareComments a b =
     (let commentsA = commentCount a; commentsB = commentCount b in
      if commentsB \<noteq> commentsA then commentsB - commentsA
      else getTime (created_at b) - getTime (created_at a))"

definition compareRecency :: "Post \<Rightarrow> Post \<Rightarrow> int" where
  "compareRecency a b = getTime (created_at b) - getTime (created_at a)"

definition fieldIncludes :: "(ustring \<Rightarrow> ustring) \<Rightarrow> ustring option \<Rightarrow> ustring \<Rightarrow> bool" where
  \<comment> \<open>\<open>field?.toLowerCase().includes(searchQuery.toLowerCase())\<close>, undefined read as false;
      \<open>lc\<close> is \<open>toLowerCase\<close>\<close>
  "fieldIncludes lc field searchQuery =
     (case field of
        None \<Rightarrow> False
      | Some s \<Rightarrow> string_includes (lc s) (lc searchQuery))"

definition matchesSearch :: "(ustring \<Rightarrow> ustring) \<Rightarrow> ustring \<Rightarrow> Post \<Rightarrow> bool" where
  "matchesSearch lc searchQuery post =
     (fieldIncludes lc (content post) searchQuery
      \<or> fieldIncludes lc (resource_title post) searchQuery
      \<or> fieldIncludes lc (case profiles post of None \<Rightarrow> None | Some pr \<Rightarrow> username pr) searchQuery)"

definition searchStep :: "(ustring \<Rightarrow> ustring) \<Rightarrow> ustring \<Rightarrow> Post list \<Rightarrow> Post list" where
  "searchStep lc searchQuery result =
     (if searchQuery \<noteq> [] then filter (matchesSearch lc searchQuery) result else result)"

definition typeFilterStep :: "string \<Rightarrow> Post list \<Rightarrow> Post list" where
  "typeFilterStep flt result =
     (if flt \<noteq> ''all'' then filter (\<lambda>post. post_type post = flt) result else result)"

definition sortStep :: "string \<Rightarrow> Post list \<Rightarrow> Post list" where
  \<comment> \<open>what the array \<open>result\<close> holds after \<open>result.sort(...)\<close>\<close>
  "sortStep sortBy result =
     (if sortBy = ''likes'' then arraySort compareLikes result
      else if sortBy = ''comments'' then arraySort compareComments result
      else arraySort compareRecency result)"

definition filteredAndSortedPosts ::
  "(ustring \<Rightarrow> ustring) \<Rightarrow> Post list \<Rightarrow> ustring \<Rightarrow> string \<Rightarrow> string \<Rightarrow> Post list \<times> Post list" where
  \<comment> \<open>the returned array, and the \<open>posts\<close> array of the state after the call\<close>
  "filteredAndSortedPosts lc posts searchQuery flt sortBy =
     (let result = sortStep sortBy (typeFilterStep flt (searchStep lc searchQuery posts))
      in (result, if searchQuery = [] \<and> flt = ''all'' then result else posts))"

section \<open>Interaction handlers\<close>

subsection \<open>Like toggle\<close>

definition hasLiked :: "string \<Rightarrow> Post \<Rightarrow> bool" where
  \<comment> \<open>\<open>post.likes?.some(like => like.user_id === user.id)\<close>, undefined read as false\<close>
  "hasLiked userId post =
     (case likes post of None \<Rightarrow> False | Some ls \<Rightarrow> list_ex (\<lambda>like. like_user_id like = userId) ls)"

definition optimisticLikes :: "string \<Rightarrow> int \<Rightarrow> string \<Rightarrow> Post \<Rightarrow> Like list option" where
  \<comment> \<open>\<open>now\<close> is \<open>Date.now()\<close> and \<open>isoNow\<close> is \<open>new Date().toISOString()\<close>\<close>
  "optimisticLikes userId now isoNow post =
     (if hasLiked userId post
      then map_option (filter (\<lambda>l. like_user_id l \<noteq> userId)) (likes post)
      else Some ((case likes post of None \<Rightarrow> [] | Some ls \<Rightarrow> ls)
                 @ [\<lparr> like_id = now, like_post_id = post_id post, like_user_id = userId,
                      like_created_at = isoNow \<rparr>]))"

text \<open>
  \<open>handleLikeToggle\<close> changes the post list once, by the optimistic update before its
  first \<open>await\<close>; what follows only adds to the trace. The whole \<open>try\<close> block has one
  \<open>catch\<close>, so a call that throws, whichever it is, ends in the error toast and the
  refetch. The results the calls resolve with are not read.
\<close>

definition handleLikeToggle ::
  "User option \<Rightarrow> Profile option \<Rightarrow> int \<Rightarrow> string \<Rightarrow> (remote_call \<Rightarrow> remote_result)
     \<Rightarrow> Post \<Rightarrow> Post list \<Rightarrow> Post list \<times> effect list" where
  "handleLikeToggle user profile now isoNow remote post posts =
     (case user of
        None \<Rightarrow> (posts, [ToastInfo ''Please sign in to like posts.''])
      | Some u \<Rightarrow>
     (case profile of
        None \<Rightarrow> (posts, [ToastInfo ''Please sign in to like posts.''])
      | Some pr \<Rightarrow>
          (let posts' = updatePostInState (post_id post)
                          (emptyPatch\<lparr>patch_likes := Some (optimisticLikes (uid u) now isoNow post)\<rparr>) posts;
               del = LikesDelete (post_id post) (uid u);
               ins = LikesInsert (post_id post) (uid u);
               notify = CreateNotification (user_id post) ''like'' (uid u) (post_id post)
           in if hasLiked (uid u) post then
                (case remote del of
                   Rejected e \<Rightarrow>
                     (posts', [Remote del, ToastError (messageOr e ''Could not update like.''), FetchPosts])
                 | Resolved r \<Rightarrow> (posts', [Remote del]))
              else
                (case remote ins of
                   Rejected e \<Rightarrow>
                     (posts', [Remote ins, ToastError (messageOr e ''Could not update like.''), FetchPosts])
                 | Resolved r \<Rightarrow>
                     if user_id post \<noteq> uid u then
                       (case remote notify of
                          Rejected e \<Rightarrow>
                            (posts', [Remote ins, Remote notify,
                                      ToastError (messageOr e ''Could not update like.''), FetchPosts])
                        | Resolved r' \<Rightarrow> (posts', [Remote ins, Remote notify]))
                     else (posts', [Remote ins])))))"

subsection \<open>Add comment\<close>

definition optimisticComment ::
  "string \<Rightarrow> string \<Rightarrow> string \<Rightarrow> User \<Rightarrow> Profile \<Rightarrow> string \<Rightarrow> Comment" where
  \<comment> \<open>\<open>tmpId\<close> is the text of \<open>`${Date.now()}-${Math.random()}`\<close>\<close>
  "optimisticComment tmpId isoNow postId u pr commentText =
     \<lparr> comment_id = tmpId, comment_post_id = postId, comment_user_id = uid u,
       comment_content = commentText, comment_created_at = isoNow, comment_profiles = Some pr \<rparr>"

definition appendComment :: "string \<Rightarrow> Comment \<Rightarrow> Post list \<Rightarrow> Post list" where
  "appendComment postId c prevPosts =
     map (\<lambda>p. if post_id p = postId
              then p\<lparr>comments := Some ((case comments p of None \<Rightarrow> [] | Some cs \<Rightarrow> cs) @ [c])\<rparr>
              else p) prevPosts"

definition rollbackComment :: "string \<Rightarrow> string \<Rightarrow> Post list \<Rightarrow> Post list" where
  "rollbackComment postId tmpId prevPosts =
     map (\<lambda>p. if post_id p = postId
              then p\<lparr>comments := map_option (filter (\<lambda>c. comment_id c \<noteq> tmpId)) (comments p)\<rparr>
              else p) prevPosts"

text \<open>
  \<open>handleAddComment\<close> is an async function: it runs up to its first \<open>await\<close> in one
  piece (the preconditions and the optimistic apply), and the rest runs when the insert
  has settled. \<open>setPosts\<close> takes an updater, so the rollback works on the post list as it
  is at that later moment: \<open>addCommentSettled\<close> takes it as \<open>prevPosts\<close>, while
  \<open>posts.find\<close> reads the list the handler was created with.
\<close>

definition addCommentPreconditions ::
  "User option \<Rightarrow> Profile option \<Rightarrow> (string \<rightharpoonup> string) \<Rightarrow> string
     \<Rightarrow> (User \<times> Profile \<times> string) option" where
  \<comment> \<open>\<open>commentText = newComments[postId]?.trim()\<close>; refused on
      \<open>!user || !commentText || !profile\<close>\<close>
  "addCommentPreconditions user profile newComments postId =
     (case user of None \<Rightarrow> None | Some u \<Rightarrow>
     (case map_option trim (newComments postId) of None \<Rightarrow> None | Some commentText \<Rightarrow>
        if commentText = [] then None else
     (case profile of None \<Rightarrow> None | Some pr \<Rightarrow> Some (u, pr, commentText))))"

definition addCommentOptimistic ::
  "User option \<Rightarrow> Profile option \<Rightarrow> (string \<rightharpoonup> string) \<Rightarrow> string \<Rightarrow> string
     \<Rightarrow> string \<Rightarrow> Post list \<Rightarrow> Post list \<times> (string \<rightharpoonup> string) \<times> effect list" where
  \<comment> \<open>the handler up to the first \<open>await\<close>\<close>
  "addCommentOptimistic user profile newComments tmpId isoNow postId posts =
     (case addCommentPreconditions user profile newComments postId of
        None \<Rightarrow> (posts, newComments, [ToastInfo ''Please sign in and write a comment.''])
      | Some (u, pr, commentText) \<Rightarrow>
          (appendComment postId (optimisticComment tmpId isoNow postId u pr commentText) posts,
           newComments(postId \<mapsto> []),
           [Remote (CommentsInsert postId (uid u) commentText)]))"

definition addCommentSettled ::
  "User \<Rightarrow> string \<Rightarrow> Comment \<Rightarrow> (remote_call \<Rightarrow> remote_result) \<Rightarrow> string \<Rightarrow> Post list
     \<Rightarrow> Post list \<Rightarrow> Post list \<times> effect list" where
  \<comment> \<open>the handler from the settling of the insert on\<close>
  "addCommentSettled u commentText c remote postId posts prevPosts =
     (case remote (CommentsInsert postId (uid u) commentText) of
        Rejected e \<Rightarrow> (prevPosts, [ToastError (messageOr e ''Failed to add comment.'')])
      | Resolved (Some e) \<Rightarrow>
          (rollbackComment postId (comment_id c) prevPosts,
           [ToastError (messageOr e ''Failed to add comment.'')])
      | Resolved None \<Rightarrow>
          (case find (\<lambda>p. post_id p = postId) posts of
             None \<Rightarrow> (prevPosts, [FetchPosts])
           | Some post \<Rightarrow>
               if user_id post \<noteq> uid u then
                 (let notify = CreateNotification (user_id post) ''comment'' (uid u) postId in
                  case remote notify of
                    Rejected e \<Rightarrow>
                      (prevPosts, [Remote notify, ToastError (messageOr e ''Failed to add comment.'')])
                  | Resolved r \<Rightarrow> (prevPosts, [Remote notify, FetchPosts]))
               else (prevPosts, [FetchPosts])))"

definition handleAddComment ::
  "User option \<Rightarrow> Profile option \<Rightarrow> (string \<rightharpoonup> string) \<Rightarrow> string \<Rightarrow> string
     \<Rightarrow> (remote_call \<Rightarrow> remote_result) \<Rightarrow> string \<Rightarrow> Post list
     \<Rightarrow> Post list \<times> (string \<rightharpoonup> string) \<times> effect list" where
  \<comment> \<open>one whole run, nothing else touching the post list in between\<close>
  "handleAddComment user profile newComments tmpId isoNow remote postId posts =
     (case addCommentOptimistic user profile newComments tmpId isoNow postId posts of
        (posts', newComments', started) \<Rightarrow>
          (case addCommentPreconditions user profile newComments postId of
             None \<Rightarrow> (posts', newComments', started)
           | Some (u, pr, commentText) \<Rightarrow>
               (case addCommentSettled u commentText
                       (optimisticComment tmpId isoNow postId u pr commentText)
                       remote postId posts posts' of
                  (posts'', settled) \<Rightarrow> (posts'', newComments', started @ settled))))"

subsection \<open>Resource claim\<close>





section \<open>Notions of the specification\<close>

text \<open>
  The search of the specification: a field contains the query as a case-insensitive
  substring when some contiguous part of the field equals the query up to the case of its
  letters, where \<open>foldCase\<close> takes each unit to the unit that stands for it whatever its case.
  A field contains the query literally when some contiguous part of it is the query.
  These definitions follow the specification's words; \<open>matchesSearch\<close> above follows the
  code, and \<open>lowercaseHit\<close> says what the code compares.
\<close>

definition equalIgnoringCase :: "(nat \<Rightarrow> nat) \<Rightarrow> ustring \<Rightarrow> ustring \<Rightarrow> bool" where
  "equalIgnoringCase foldCase s t = (map foldCase s = map foldCase t)"

definition containsIgnoringCase :: "(nat \<Rightarrow> nat) \<Rightarrow> ustring \<Rightarrow> ustring \<Rightarrow> bool" where
  "containsIgnoringCase foldCase s q =
     (\<exists>before part after. s = before @ part @ after \<and> equalIgnoringCase foldCase part q)"

definition containsLiterally :: "ustring \<Rightarrow> ustring \<Rightarrow> bool" where
  "containsLiterally s q = (\<exists>before after. s = before @ q @ after)"

definition searchedFields :: "Post \<Rightarrow> ustring list" where
  \<comment> \<open>the text of a post that the search reads: content, resource title, author username\<close>
  "searchedFields post =
     (case content post of None \<Rightarrow> [] | Some s \<Rightarrow> [s])
     @ (case resource_title post of None \<Rightarrow> [] | Some s \<Rightarrow> [s])
     @ (case profiles post of
          None \<Rightarrow> []
        | Some pr \<Rightarrow> (case username pr of None \<Rightarrow> [] | Some s \<Rightarrow> [s]))"

definition searchHit :: "(nat \<Rightarrow> nat) \<Rightarrow> ustring \<Rightarrow> Post \<Rightarrow> bool" where
  "searchHit foldCase q post = (\<exists>s. s \<in> set (searchedFields post) \<and> containsIgnoringCase foldCase s q)"

definition lowercaseHit :: "(ustring \<Rightarrow> ustring) \<Rightarrow> ustring \<Rightarrow> Post \<Rightarrow> bool" where
  "lowercaseHit lc q post = (\<exists>s. s \<in> set (searchedFields post) \<and> containsLiterally (lc s) (lc q))"





definition likeUserIds :: "Post \<Rightarrow> string set" where
  \<comment> \<open>the like set of a post: the users who hold a like on it\<close>
  "likeUserIds p = (case likes p of None \<Rightarrow> {} | Some ls \<Rightarrow> like_user_id ` set ls)"

definition commentsOf :: "Post \<Rightarrow> Comment list" where
  \<comment> \<open>\<open>p.comments || []\<close>\<close>
  "commentsOf p = (case comments p of None \<Rightarrow> [] | Some cs \<Rightarrow> cs)"

section \<open>Sample data\<close>

definition samplePost :: "string \<Rightarrow> string \<Rightarrow> int \<Rightarrow> Post" where
  "samplePost i author t =
     \<lparr> post_id = i, user_id = author, created_at = t, post_type = ''wisdom'',
       content = Some (units ''Hello''), resource_title = None, resource_category = None,
       resource_contact = None, image_url = None, link_url = None, link_title = None,
       link_description = None, link_image = None, profiles = None, likes = None,
       comments = None \<rparr>"

definition sampleDonation :: Post where
  "sampleDonation =
     \<lparr> post_id = ''d1'', user_id = ''u1'', created_at = 1000, post_type = ''donation'',
       content = None, resource_title = Some (units ''Algebra textbook''),
       resource_category = Some ''books'', resource_contact = Some ''donor@example.org'',
       image_url = None, link_url = None, link_title = None, link_description = None,
       link_image = None, profiles = None, likes = None, comments = None \<rparr>"

definition sampleStudent :: Profile where
  "sampleStudent =
     \<lparr> username = Some (units ''sam''), avatar_url = None, email = None, role = ''student'',
       verification_status = ''verified'' \<rparr>"

definition sampleLike :: "string \<Rightarrow> Like" where
  "sampleLike u = \<lparr> like_id = 7, like_post_id = ''p1'', like_user_id = u, like_created_at = ''2024-01-01T00:00:00.000Z'' \<rparr>"

definition sampleLikedPost :: Post where
  \<comment> \<open>a post that the users \<open>u2\<close> and \<open>u3\<close> like\<close>
  "sampleLikedPost = (samplePost ''p1'' ''u1'' 1)\<lparr>likes := Some [sampleLike ''u2'', sampleLike ''u3'']\<rparr>"

definition sampleOnceLiked :: "string \<Rightarrow> int \<Rightarrow> Post" where
  \<comment> \<open>a post with one like\<close>
  "sampleOnceLiked i t = (samplePost i ''u1'' t)\<lparr>likes := Some [sampleLike ''u3'']\<rparr>"

definition sampleGreekPost :: Post where
  \<comment> \<open>a post whose content is the four Greek capitals omicron, delta, omicron, sigma\<close>
  "sampleGreekPost = (samplePost ''g1'' ''u1'' 1)\<lparr>content := Some [0x39F, 0x394, 0x39F, 0x3A3]\<rparr>"

definition sampleComment :: "string \<Rightarrow> Comment" where
  "sampleComment i =
     \<lparr> comment_id = i, comment_post_id = ''p1'', comment_user_id = ''u9'',
       comment_content = ''first'', comment_created_at = ''2024-01-01T00:00:00.000Z'',
       comment_profiles = None \<rparr>"

definition allResolve :: "remote_call \<Rightarrow> remote_result" where
  "allResolve c = Resolved None"

definition insertThrows :: "remote_call \<Rightarrow> remote_result" where
  "insertThrows c =
     (case c of CommentsInsert p u t \<Rightarrow> Rejected (JsError (Some ''network down'')) | _ \<Rightarrow> Resolved None)"

definition insertFails :: "remote_call \<Rightarrow> remote_result" where
  "insertFails c =
     (case c of CommentsInsert p u t \<Rightarrow> Resolved (Some (JsError (Some ''row refused''))) | _ \<Rightarrow> Resolved None)"

definition notifyThrows :: "remote_call \<Rightarrow> remote_result" where
  "notifyThrows c =
     (case c of CreateNotification t k a p \<Rightarrow> Rejected (JsError (Some ''rpc failed'')) | _ \<Rightarrow> Resolved None)"

definition notifyFails :: "remote_call \<Rightarrow> remote_result" where
  "notifyFails c =
     (case c of CreateNotification t k a p \<Rightarrow> Resolved (Some (JsError (Some ''rpc failed''))) | _ \<Rightarrow> Resolved None)"

section \<open>Link preview: the Wikipedia scenario\<close>

text \<open>
  Claim C9. For the text \<open>Check https://wikipedia.org/x out\<close> the URL extraction yields
  exactly \<open>https://wikipedia.org/x\<close>, the first URL, ended by the white space after it, and
  the preview resolved for that URL carries the fixed Wikipedia title.
\<close>

theorem url_preview_wikipedia:
  "matchUrl ''Check https://wikipedia.org/x out'' = Some ''https://wikipedia.org/x''
   \<and> title (fetchRichLinkPreview ''https://wikipedia.org/x'') = ''Wikipedia, the free encyclopedia''
   \<and> map_option title (resolveLinkPreview ''Check https://wikipedia.org/x out'')
       = Some ''Wikipedia, the free encyclopedia''"
proof -
  have m: "matchUrl ''Check https://wikipedia.org/x out'' = Some ''https://wikipedia.org/x''"
    by code_simp
  have t: "title (fetchRichLinkPreview ''https://wikipedia.org/x'') = ''Wikipedia, the free encyclopedia''"
    by code_simp
  show ?thesis using m t by (simp add: resolveLinkPreview_def)
qed

section \<open>Realtime insert\<close>

text \<open>
  Claim C1, as the code has it. A realtime post-insert event puts the pushed post at the
  front of the post list and leaves the posts already there as they are, whether or not
  one of them carries the pushed identifier: nothing is looked up and nothing is merged.
  The identifiers of the list are distinct after the event exactly when they were
  distinct before it and the pushed identifier was not among them.
\<close>

theorem post_insert_prepends:
  "onRealtimeEvent (PostsInsert newPost) posts = (newPost # posts, [])
   \<and> distinct (map post_id (fst (onRealtimeEvent (PostsInsert newPost) posts)))
       = (post_id newPost \<notin> post_id ` set posts \<and> distinct (map post_id posts))"
  by (simp add: addPostToState_def)

text \<open>A pushed post with a new identifier: the list grows at the front and stays free of duplicates.\<close>

theorem post_insert_prepends_witness:
  "fst (onRealtimeEvent (PostsInsert (samplePost ''p2'' ''u1'' 2)) [samplePost ''p1'' ''u1'' 1])
     = [samplePost ''p2'' ''u1'' 2, samplePost ''p1'' ''u1'' 1]
   \<and> distinct (map post_id (fst (onRealtimeEvent (PostsInsert (samplePost ''p2'' ''u1'' 2))
                                  [samplePost ''p1'' ''u1'' 1])))"
  using post_insert_prepends [of "samplePost ''p2'' ''u1'' 2" "[samplePost ''p1'' ''u1'' 1]"]
  by (simp add: samplePost_def)

text \<open>
  The claim as stated asks for an upsert. Pushing a post whose identifier is already in
  the list leaves both in the list, the old one unchanged: two posts with one identifier.
\<close>

theorem post_insert_upsert_counterexample:
  "fst (onRealtimeEvent (PostsInsert ((samplePost ''p1'' ''u1'' 1)\<lparr>content := Some (units ''edited'')\<rparr>))
          [samplePost ''p1'' ''u1'' 1])
     = [(samplePost ''p1'' ''u1'' 1)\<lparr>content := Some (units ''edited'')\<rparr>, samplePost ''p1'' ''u1'' 1]
   \<and> \<not> distinct (map post_id
          (fst (onRealtimeEvent (PostsInsert ((samplePost ''p1'' ''u1'' 1)\<lparr>content := Some (units ''edited'')\<rparr>))
                  [samplePost ''p1'' ''u1'' 1])))"
  by (simp add: addPostToState_def samplePost_def)


section \<open>Filter/sort projection: the array sort\<close>

text \<open>
  The sort returns a rearrangement of its input that is ascending in the comparator, and
  it keeps the order of elements that compare equal. The order theorems of this section
  rest on these facts alone, which every sort that meets the language's contract shares.
\<close>

lemma mset_insertSorted: "mset (insertSorted cmp x ys) = add_mset x (mset ys)"
  by (induction ys) auto

lemma mset_arraySort: "mset (arraySort cmp xs) = mset xs"
  unfolding arraySort_def by (induction xs) (auto simp: mset_insertSorted)

lemma set_insertSorted: "set (insertSorted cmp x ys) = insert x (set ys)"
  using mset_insertSorted [of cmp x ys] by (metis set_mset_mset set_mset_add_mset_insert)

text \<open>
  A comparator is consistent when \<open>cmp a b \<le> 0\<close> is total and transitive; the three
  comparators of the projection are. The sorted list is then ascending in it.
\<close>

lemma sorted_insertSorted:
  assumes total: "\<And>a b. 0 < cmp a b \<Longrightarrow> cmp b a \<le> 0"
    and trans: "\<And>a b c. cmp a b \<le> 0 \<Longrightarrow> cmp b c \<le> 0 \<Longrightarrow> cmp a c \<le> 0"
    and sorted: "sorted_wrt (\<lambda>a b. cmp a b \<le> 0) ys"
  shows "sorted_wrt (\<lambda>a b. cmp a b \<le> 0) (insertSorted cmp x ys)"
  using sorted
proof (induction ys)
  case Nil
  then show ?case by simp
next
  case (Cons y ys)
  show ?case
  proof (cases "cmp x y \<le> 0")
    case True
    have "cmp x z \<le> 0" if "z \<in> set ys" for z
      using Cons.prems that True trans by auto
    with True Cons.prems show ?thesis by auto
  next
    case False
    then have "cmp y x \<le> 0" using total by simp
    with False Cons show ?thesis by (auto simp: set_insertSorted)
  qed
qed

lemma sorted_arraySort:
  assumes "\<And>a b. 0 < cmp a b \<Longrightarrow> cmp b a \<le> 0"
    and "\<And>a b c. cmp a b \<le> 0 \<Longrightarrow> cmp b c \<le> 0 \<Longrightarrow> cmp a c \<le> 0"
  shows "sorted_wrt (\<lambda>a b. cmp a b \<le> 0) (arraySort cmp xs)"
  unfolding arraySort_def
  by (induction xs) (auto intro: sorted_insertSorted assms)

lemma sorted_compareRecency:
  "sorted_wrt (\<lambda>a b. compareRecency a b \<le> 0) (arraySort compareRecency xs)"
  by (rule sorted_arraySort) (auto simp: compareRecency_def)

lemma sorted_compareLikes:
  "sorted_wrt (\<lambda>a b. compareLikes a b \<le> 0) (arraySort compareLikes xs)"
  by (rule sorted_arraySort) (auto simp: compareLikes_def Let_def split: if_splits)

lemma sorted_compareComments:
  "sorted_wrt (\<lambda>a b. compareComments a b \<le> 0) (arraySort compareComments xs)"
  by (rule sorted_arraySort) (auto simp: compareComments_def Let_def split: if_splits)

text \<open>
  A list that is already ascending in the comparator is returned as it is, whatever the
  order of the elements that compare equal.
\<close>

lemma arraySort_sorted:
  assumes "sorted_wrt (\<lambda>a b. cmp a b \<le> 0) xs"
  shows "arraySort cmp xs = xs"
  using assms
proof (induction xs)
  case Nil
  then show ?case by (simp add: arraySort_def)
next
  case (Cons x xs)
  then have tail: "arraySort cmp xs = xs" by simp
  have "insertSorted cmp x xs = x # xs"
    using Cons.prems by (cases xs) auto
  with tail show ?case by (simp add: arraySort_def)
qed

text \<open>
  Stability: the elements of a class whose members compare equal to each other keep the
  order they had in the input.
\<close>

lemma filter_insertSorted_other:
  assumes "\<not> P x"
  shows "filter P (insertSorted cmp x ys) = filter P ys"
  using assms by (induction ys) auto

lemma filter_insertSorted_same:
  assumes "P x" and "\<And>y. y \<in> set ys \<Longrightarrow> P y \<Longrightarrow> cmp x y \<le> 0"
  shows "filter P (insertSorted cmp x ys) = x # filter P ys"
  using assms
proof (induction ys)
  case Nil
  then show ?case by simp
next
  case (Cons y ys)
  show ?case
  proof (cases "cmp x y \<le> 0")
    case True
    with Cons.prems(1) show ?thesis by simp
  next
    case False
    with Cons.prems(2) [of y] have "\<not> P y" by auto
    moreover have "filter P (insertSorted cmp x ys) = x # filter P ys"
      using Cons.IH Cons.prems by simp
    ultimately show ?thesis using False by simp
  qed
qed

lemma arraySort_stable:
  assumes "\<And>a b. P a \<Longrightarrow> P b \<Longrightarrow> cmp a b \<le> 0"
  shows "filter P (arraySort cmp xs) = filter P xs"
proof (induction xs)
  case Nil
  then show ?case by (simp add: arraySort_def)
next
  case (Cons x xs)
  have step: "arraySort cmp (x # xs) = insertSorted cmp x (arraySort cmp xs)"
    by (simp add: arraySort_def)
  show ?case
  proof (cases "P x")
    case True
    then have "filter P (insertSorted cmp x (arraySort cmp xs)) = x # filter P (arraySort cmp xs)"
      by (intro filter_insertSorted_same) (auto intro: assms)
    with True Cons.IH step show ?thesis by simp
  next
    case False
    then show ?thesis using Cons.IH step by (simp add: filter_insertSorted_other)
  qed
qed

text \<open>In a sorted list, an element that the comparator puts strictly first stands first.\<close>

lemma before_of_sorted:
  fixes cmp :: "'a \<Rightarrow> 'a \<Rightarrow> int"
  assumes "sorted_wrt (\<lambda>a b. cmp a b \<le> 0) res"
    and "i < length res" and "j < length res"
    and "0 < cmp (res ! j) (res ! i)" and "cmp (res ! i) (res ! i) = 0"
  shows "i < j"
proof (rule ccontr)
  assume "\<not> i < j"
  then consider "i = j" | "j < i" by linarith
  then show False
  proof cases
    case 1
    with assms show ?thesis by simp
  next
    case 2
    with assms(1,2) have "cmp (res ! j) (res ! i) \<le> 0"
      by (simp add: sorted_wrt_iff_nth_less)
    with assms(4) show ?thesis by simp
  qed
qed

lemma compareRecency_order:
  "let res = arraySort compareRecency xs in
     \<forall>i<length res. \<forall>j<length res.
       getTime (created_at (res ! i)) \<noteq> getTime (created_at (res ! j))
       \<longrightarrow> (i < j) = (getTime (created_at (res ! j)) < getTime (created_at (res ! i)))"
proof -
  define res where "res = arraySort compareRecency xs"
  have srt: "sorted_wrt (\<lambda>a b. compareRecency a b \<le> 0) res"
    unfolding res_def by (rule sorted_compareRecency)
  have "(i < j) = (getTime (created_at (res ! j)) < getTime (created_at (res ! i)))"
    if i: "i < length res" and j: "j < length res"
      and ne: "getTime (created_at (res ! i)) \<noteq> getTime (created_at (res ! j))" for i j
  proof
    assume "i < j"
    with srt j have "compareRecency (res ! i) (res ! j) \<le> 0"
      by (simp add: sorted_wrt_iff_nth_less)
    then have "getTime (created_at (res ! j)) \<le> getTime (created_at (res ! i))"
      by (simp add: compareRecency_def)
    with ne show "getTime (created_at (res ! j)) < getTime (created_at (res ! i))" by simp
  next
    assume "getTime (created_at (res ! j)) < getTime (created_at (res ! i))"
    then have "0 < compareRecency (res ! j) (res ! i)" by (simp add: compareRecency_def)
    with srt i j show "i < j"
      by (rule before_of_sorted) (simp add: compareRecency_def)
  qed
  then show ?thesis by (simp add: Let_def res_def)
qed

lemma three_posts_recency:
  assumes "getTime (created_at p1) < getTime (created_at p2)"
    and "getTime (created_at p2) < getTime (created_at p3)"
    and "posts \<in> set [[p1, p2, p3], [p1, p3, p2], [p2, p1, p3], [p2, p3, p1], [p3, p1, p2], [p3, p2, p1]]"
  shows "arraySort compareRecency posts = [p3, p2, p1]"
  using assms by (auto simp: arraySort_def compareRecency_def)

text \<open>
  With an empty query and the filter \<open>all\<close> the projection sorts the \<open>posts\<close> array of the
  state itself; otherwise it leaves that array as it is.
\<close>

lemma projection_state_array:
  "snd (filteredAndSortedPosts lc posts searchQuery flt sortBy)
     = (if searchQuery = [] \<and> flt = ''all'' then sortStep sortBy posts else posts)"
  by (simp add: filteredAndSortedPosts_def Let_def typeFilterStep_def searchStep_def)

lemma projection_result:
  "fst (filteredAndSortedPosts lc posts searchQuery flt sortBy)
     = sortStep sortBy (typeFilterStep flt (searchStep lc searchQuery posts))"
  by (simp add: filteredAndSortedPosts_def Let_def)
text \<open>
  Claim C7, as the code has it. The default sort (\<open>sortBy\<close> is \<open>created_at\<close>) compares
  creation times as \<open>new Date(..).getTime()\<close> reads them, in whole milliseconds. The
  projection returns the posts that passed the search and the type filter; of two posts
  whose creation times fall in different milliseconds one stands before the other exactly
  when it was created later; posts created within the same millisecond keep the order
  they had in the list. In particular three posts created in the milliseconds
  \<open>T1 < T2 < T3\<close>, given in any order, come out as \<open>[T3, T2, T1]\<close>.
\<close>

theorem most_recent_sort:
  "(let filtered = typeFilterStep flt (searchStep lc searchQuery posts);
        res = fst (filteredAndSortedPosts lc posts searchQuery flt ''created_at'')
    in mset res = mset filtered
       \<and> (\<forall>i<length res. \<forall>j<length res.
             getTime (created_at (res ! i)) \<noteq> getTime (created_at (res ! j))
             \<longrightarrow> (i < j) = (getTime (created_at (res ! j)) < getTime (created_at (res ! i))))
       \<and> (\<forall>t. filter (\<lambda>p. getTime (created_at p) = t) res
                 = filter (\<lambda>p. getTime (created_at p) = t) filtered))
   \<and> (getTime (created_at p1) < getTime (created_at p2)
        \<and> getTime (created_at p2) < getTime (created_at p3)
        \<and> three \<in> set [[p1, p2, p3], [p1, p3, p2], [p2, p1, p3], [p2, p3, p1], [p3, p1, p2], [p3, p2, p1]]
      \<longrightarrow> fst (filteredAndSortedPosts lc three [] ''all'' ''created_at'') = [p3, p2, p1])"
proof (intro conjI impI)
  define filtered where "filtered = typeFilterStep flt (searchStep lc searchQuery posts)"
  have s: "fst (filteredAndSortedPosts lc posts searchQuery flt ''created_at'')
             = arraySort compareRecency filtered"
    by (simp add: projection_result sortStep_def filtered_def)
  have stable: "filter (\<lambda>p. getTime (created_at p) = t) (arraySort compareRecency filtered)
                  = filter (\<lambda>p. getTime (created_at p) = t) filtered" for t
    by (rule arraySort_stable) (simp add: compareRecency_def)
  show "let filtered = typeFilterStep flt (searchStep lc searchQuery posts);
            res = fst (filteredAndSortedPosts lc posts searchQuery flt ''created_at'')
        in mset res = mset filtered
           \<and> (\<forall>i<length res. \<forall>j<length res.
                 getTime (created_at (res ! i)) \<noteq> getTime (created_at (res ! j))
                 \<longrightarrow> (i < j) = (getTime (created_at (res ! j)) < getTime (created_at (res ! i))))
           \<and> (\<forall>t. filter (\<lambda>p. getTime (created_at p) = t) res
                     = filter (\<lambda>p. getTime (created_at p) = t) filtered)"
    unfolding s filtered_def [symmetric] Let_def
    using compareRecency_order [of filtered] stable
    by (simp add: Let_def mset_arraySort)
next
  assume a: "getTime (created_at p1) < getTime (created_at p2)
        \<and> getTime (created_at p2) < getTime (created_at p3)
        \<and> three \<in> set [[p1, p2, p3], [p1, p3, p2], [p2, p1, p3], [p2, p3, p1], [p3, p1, p2], [p3, p2, p1]]"
  have "fst (filteredAndSortedPosts lc three [] ''all'' ''created_at'') = arraySort compareRecency three"
    by (simp add: projection_result sortStep_def typeFilterStep_def searchStep_def)
  with a show "fst (filteredAndSortedPosts lc three [] ''all'' ''created_at'') = [p3, p2, p1]"
    using three_posts_recency [of p1 p2 p3 three] by simp
qed

text \<open>Three posts created in the milliseconds 1, 2 and 3, given in the order 2, 1, 3.\<close>

theorem most_recent_sort_witness:
  "getTime (created_at (samplePost ''b'' ''u1'' 1000)) < getTime (created_at (samplePost ''a'' ''u1'' 2000))
   \<and> getTime (created_at (samplePost ''a'' ''u1'' 2000)) < getTime (created_at (samplePost ''c'' ''u1'' 3000))
   \<and> fst (filteredAndSortedPosts toLowerCase16
        [samplePost ''a'' ''u1'' 2000, samplePost ''b'' ''u1'' 1000, samplePost ''c'' ''u1'' 3000]
        [] ''all'' ''created_at'')
       = [samplePost ''c'' ''u1'' 3000, samplePost ''a'' ''u1'' 2000, samplePost ''b'' ''u1'' 1000]"
  using most_recent_sort [of "[]" toLowerCase16 "[]" "[]" "samplePost ''b'' ''u1'' 1000"
      "samplePost ''a'' ''u1'' 2000" "samplePost ''c'' ''u1'' 3000"
      "[samplePost ''a'' ''u1'' 2000, samplePost ''b'' ''u1'' 1000, samplePost ''c'' ''u1'' 3000]"]
  by (simp add: samplePost_def getTime_def)

text \<open>
  The claim as stated compares creation times themselves. Two posts created 800
  microseconds apart within one millisecond, the older one first in the list: the later
  one is not placed before the earlier one.
\<close>

theorem most_recent_sort_counterexample:
  "created_at (samplePost ''old'' ''u1'' 5000100) < created_at (samplePost ''new'' ''u1'' 5000900)
   \<and> fst (filteredAndSortedPosts toLowerCase16
        [samplePost ''old'' ''u1'' 5000100, samplePost ''new'' ''u1'' 5000900] [] ''all'' ''created_at'')
       = [samplePost ''old'' ''u1'' 5000100, samplePost ''new'' ''u1'' 5000900]"
  by (simp add: projection_result sortStep_def typeFilterStep_def searchStep_def arraySort_def
      compareRecency_def getTime_def samplePost_def)

text \<open>
  Claim C6, as the code has it. Under sort-by-likes the projection returns the posts that
  passed the search and the type filter, in descending order of like count; of two posts
  with the same like count whose creation times fall in different milliseconds (as
  \<open>new Date(..).getTime()\<close> reads them) the newer one stands first; posts with the same like
  count created within the same millisecond keep the order they had in the list.
\<close>

theorem sort_by_likes_tiebreak:
  "let filtered = typeFilterStep flt (searchStep lc searchQuery posts);
       res = fst (filteredAndSortedPosts lc posts searchQuery flt ''likes'')
   in mset res = mset filtered
      \<and> (\<forall>i<length res. \<forall>j<length res.
            likeCount (res ! i) = likeCount (res ! j)
            \<and> getTime (created_at (res ! j)) < getTime (created_at (res ! i))
            \<longrightarrow> i < j)
      \<and> (\<forall>i<length res. \<forall>j<length res. i < j \<longrightarrow> likeCount (res ! j) \<le> likeCount (res ! i))
      \<and> (\<forall>n t. filter (\<lambda>p. likeCount p = n \<and> getTime (created_at p) = t) res
                  = filter (\<lambda>p. likeCount p = n \<and> getTime (created_at p) = t) filtered)"
proof -
  define filtered where "filtered = typeFilterStep flt (searchStep lc searchQuery posts)"
  define res where "res = arraySort compareLikes filtered"
  have s: "fst (filteredAndSortedPosts lc posts searchQuery flt ''likes'') = res"
    by (simp add: projection_result sortStep_def res_def filtered_def)
  have srt: "sorted_wrt (\<lambda>a b. compareLikes a b \<le> 0) res"
    unfolding res_def by (rule sorted_compareLikes)
  have tie: "i < j"
    if "i < length res" "j < length res" "likeCount (res ! i) = likeCount (res ! j)"
      "getTime (created_at (res ! j)) < getTime (created_at (res ! i))" for i j
  proof -
    have "0 < compareLikes (res ! j) (res ! i)"
      using that(3,4) by (simp add: compareLikes_def)
    with srt that(1,2) show ?thesis
      by (rule before_of_sorted) (simp add: compareLikes_def)
  qed
  have desc: "likeCount (res ! j) \<le> likeCount (res ! i)"
    if "j < length res" "i < j" for i j
  proof -
    have "compareLikes (res ! i) (res ! j) \<le> 0"
      using srt that by (simp add: sorted_wrt_iff_nth_less)
    then show ?thesis by (simp add: compareLikes_def Let_def split: if_splits)
  qed
  have stable: "filter (\<lambda>p. likeCount p = n \<and> getTime (created_at p) = t) res
                  = filter (\<lambda>p. likeCount p = n \<and> getTime (created_at p) = t) filtered" for n t
    unfolding res_def by (rule arraySort_stable) (simp add: compareLikes_def)
  show ?thesis
    unfolding s filtered_def [symmetric] Let_def
    using tie desc stable by (simp add: res_def mset_arraySort)
qed

text \<open>
  Two posts with one like each, created in different milliseconds, the older one given
  first, and a newer post without likes: the liked posts come first, the newer of them at
  the front.
\<close>

theorem sort_by_likes_tiebreak_witness:
  "likeCount (sampleOnceLiked ''old'' 1000) = likeCount (sampleOnceLiked ''new'' 2000)
   \<and> getTime (created_at (sampleOnceLiked ''old'' 1000)) < getTime (created_at (sampleOnceLiked ''new'' 2000))
   \<and> fst (filteredAndSortedPosts toLowerCase16
        [samplePost ''none'' ''u1'' 3000, sampleOnceLiked ''old'' 1000, sampleOnceLiked ''new'' 2000]
        [] ''all'' ''likes'')
       = [sampleOnceLiked ''new'' 2000, sampleOnceLiked ''old'' 1000, samplePost ''none'' ''u1'' 3000]"
  using sort_by_likes_tiebreak
    [of "[]" toLowerCase16 "[]"
      "[samplePost ''none'' ''u1'' 3000, sampleOnceLiked ''old'' 1000, sampleOnceLiked ''new'' 2000]"]
  by (simp add: projection_result sortStep_def typeFilterStep_def searchStep_def arraySort_def
      compareLikes_def likeCount_def getTime_def sampleOnceLiked_def samplePost_def)

text \<open>
  The claim as stated calls the tie-break exact. Two posts with one like each, created 800
  microseconds apart within one millisecond, the older one first in the list: the older
  one comes out first.
\<close>

theorem sort_by_likes_tiebreak_counterexample:
  "likeCount (sampleOnceLiked ''old'' 5000100) = likeCount (sampleOnceLiked ''new'' 5000900)
   \<and> created_at (sampleOnceLiked ''old'' 5000100) < created_at (sampleOnceLiked ''new'' 5000900)
   \<and> fst (filteredAndSortedPosts toLowerCase16
        [sampleOnceLiked ''old'' 5000100, sampleOnceLiked ''new'' 5000900] [] ''all'' ''likes'')
       = [sampleOnceLiked ''old'' 5000100, sampleOnceLiked ''new'' 5000900]"
  by (simp add: projection_result sortStep_def typeFilterStep_def searchStep_def arraySort_def
      compareLikes_def likeCount_def getTime_def sampleOnceLiked_def samplePost_def)
section \<open>Filter/sort projection: the search\<close>

lemma startsWith_iff: "startsWith s q = (\<exists>after. s = q @ after)"
  by (induction s q rule: startsWith.induct) auto

lemma string_includes_iff: "string_includes s q = (\<exists>before after. s = before @ q @ after)"
proof (induction s)
  case Nil
  then show ?case by auto
next
  case (Cons c cs)
  show ?case
  proof
    assume "string_includes (c # cs) q"
    then consider "startsWith (c # cs) q" | "string_includes cs q" by auto
    then show "\<exists>before after. c # cs = before @ q @ after"
    proof cases
      case 1
      then obtain after where "c # cs = q @ after" by (auto simp: startsWith_iff)
      then have "c # cs = [] @ q @ after" by simp
      then show ?thesis by blast
    next
      case 2
      then obtain before after where "cs = before @ q @ after" using Cons.IH by auto
      then have "c # cs = (c # before) @ q @ after" by simp
      then show ?thesis by blast
    qed
  next
    assume "\<exists>before after. c # cs = before @ q @ after"
    then obtain before after where eq: "c # cs = before @ q @ after" by auto
    show "string_includes (c # cs) q"
    proof (cases before)
      case Nil
      with eq have "startsWith (c # cs) q" by (auto simp: startsWith_iff)
      then show ?thesis by simp
    next
      case (Cons b bs)
      with eq have "cs = bs @ q @ after" by simp
      then have "string_includes cs q" using Cons.IH by blast
      then show ?thesis by simp
    qed
  qed
qed

lemma matchesSearch_iff: "matchesSearch lc q post = lowercaseHit lc q post"
  unfolding matchesSearch_def lowercaseHit_def fieldIncludes_def searchedFields_def
  by (auto simp: string_includes_iff containsLiterally_def split: option.splits)

text \<open>
  Where lower-casing works one unit at a time, containing the lower-cased query is
  containing the query up to case.
\<close>

lemma unitwise_lower_iff:
  "containsLiterally (map foldCase s) (map foldCase q) = containsIgnoringCase foldCase s q"
proof
  assume "containsLiterally (map foldCase s) (map foldCase q)"
  then obtain b a where "map foldCase s = b @ map foldCase q @ a"
    by (auto simp: containsLiterally_def)
  then obtain s1 r where s: "s = s1 @ r" and r: "map foldCase r = map foldCase q @ a"
    by (metis map_eq_append_conv)
  from r obtain s2 s3 where "r = s2 @ s3" "map foldCase s2 = map foldCase q"
    by (metis map_eq_append_conv)
  with s have "s = s1 @ s2 @ s3" "map foldCase s2 = map foldCase q" by simp_all
  then show "containsIgnoringCase foldCase s q"
    unfolding containsIgnoringCase_def equalIgnoringCase_def by blast
next
  assume "containsIgnoringCase foldCase s q"
  then obtain s1 s2 s3 where "s = s1 @ s2 @ s3" "map foldCase s2 = map foldCase q"
    unfolding containsIgnoringCase_def equalIgnoringCase_def by blast
  then have "map foldCase s = map foldCase s1 @ map foldCase q @ map foldCase s3"
    by simp
  then show "containsLiterally (map foldCase s) (map foldCase q)"
    unfolding containsLiterally_def by blast
qed

lemma unitwise_hit_iff: "lowercaseHit (map foldCase) q = searchHit foldCase q"
  by (rule ext) (simp add: lowercaseHit_def searchHit_def unitwise_lower_iff)

text \<open>
  On text of Basic Latin the built-in lower-casing is \<open>lowerAscii\<close> on every unit.
\<close>

lemma lowerFrom_basicLatin: "basicLatin s \<Longrightarrow> lowerFrom left s = map lowerAscii s"
  by (induction s arbitrary: left) (auto simp: basicLatin_def lowerUnit_def lowerAscii_def)

lemma toLowerCase16_basicLatin: "basicLatin s \<Longrightarrow> toLowerCase16 s = map lowerAscii s"
  by (simp add: toLowerCase16_def lowerFrom_basicLatin)

lemma matchesSearch_basicLatin:
  assumes "basicLatin q" and "list_all basicLatin (searchedFields post)"
  shows "matchesSearch toLowerCase16 q post = matchesSearch (map lowerAscii) q post"
  using assms
  by (simp add: matchesSearch_def fieldIncludes_def searchedFields_def toLowerCase16_basicLatin
      split: option.splits)

lemma searchStep_basicLatin:
  assumes "basicLatin q" and "list_all (\<lambda>post. list_all basicLatin (searchedFields post)) posts"
  shows "searchStep toLowerCase16 q posts = searchStep (map lowerAscii) q posts"
proof -
  have "filter (matchesSearch toLowerCase16 q) posts = filter (matchesSearch (map lowerAscii) q) posts"
    using assms by (intro filter_cong) (simp_all add: matchesSearch_basicLatin list_all_iff)
  then show ?thesis by (simp add: searchStep_def)
qed

text \<open>
  Claim C8, as the code has it. With a query that is not empty, the search step keeps
  exactly the posts of which the content, the resource title or the author username, once
  lower-cased, contains the lower-cased query, in their order; \<open>lc\<close> is \<open>toLowerCase\<close>,
  whatever it does. Where lower-casing works one unit at a time (\<open>lc\<close> is \<open>map foldCase\<close>)
  these are exactly the posts that contain the query as a case-insensitive substring; so
  it is for the built-in lower-casing when the query and the searched text of the posts
  are of Basic Latin, where two units are equal up to case when \<open>lowerAscii\<close> makes them
  equal. The empty query passes every post through unchanged, and the projection is then
  the type filter and the sort alone.
\<close>

theorem search_step:
  "(searchQuery \<noteq> [] \<longrightarrow> searchStep lc searchQuery posts = filter (lowercaseHit lc searchQuery) posts)
   \<and> (searchQuery \<noteq> [] \<longrightarrow>
        searchStep (map foldCase) searchQuery posts = filter (searchHit foldCase searchQuery) posts)
   \<and> (searchQuery \<noteq> [] \<and> basicLatin searchQuery
        \<and> list_all (\<lambda>post. list_all basicLatin (searchedFields post)) posts \<longrightarrow>
        searchStep toLowerCase16 searchQuery posts = filter (searchHit lowerAscii searchQuery) posts)
   \<and> searchStep lc [] posts = posts
   \<and> fst (filteredAndSortedPosts lc posts [] flt sortBy) = sortStep sortBy (typeFilterStep flt posts)"
proof -
  have "filter (matchesSearch lc' searchQuery) posts = filter (lowercaseHit lc' searchQuery) posts" for lc'
    by (rule filter_cong) (simp_all add: matchesSearch_iff)
  then have code: "searchStep lc' searchQuery posts = filter (lowercaseHit lc' searchQuery) posts"
    if "searchQuery \<noteq> []" for lc'
    using that by (simp add: searchStep_def)
  have unitwise: "searchStep (map foldCase') searchQuery posts = filter (searchHit foldCase' searchQuery) posts"
    if "searchQuery \<noteq> []" for foldCase'
    using code [OF that, of "map foldCase'"] by (simp add: unitwise_hit_iff)
  have latin: "searchStep toLowerCase16 searchQuery posts = filter (searchHit lowerAscii searchQuery) posts"
    if "searchQuery \<noteq> [] \<and> basicLatin searchQuery
        \<and> list_all (\<lambda>post. list_all basicLatin (searchedFields post)) posts"
    using that unitwise [of lowerAscii] by (simp add: searchStep_basicLatin)
  have empty: "searchStep lc [] posts = posts"
    by (simp add: searchStep_def)
  have "fst (filteredAndSortedPosts lc posts [] flt sortBy) = sortStep sortBy (typeFilterStep flt posts)"
    by (simp add: projection_result searchStep_def)
  with code unitwise latin empty show ?thesis by blast
qed

text \<open>
  The query \<open>HELLO\<close> against a post with the content \<open>Hello\<close> and a donation without
  content, titled \<open>Algebra textbook\<close>, all of Basic Latin: the first is a hit, the second
  is not, and the search with the built-in lower-casing keeps the first alone.
\<close>

theorem search_step_witness:
  "units ''HELLO'' \<noteq> []
   \<and> basicLatin (units ''HELLO'')
   \<and> list_all (\<lambda>post. list_all basicLatin (searchedFields post)) [samplePost ''a'' ''u1'' 1, sampleDonation]
   \<and> searchStep toLowerCase16 (units ''HELLO'') [samplePost ''a'' ''u1'' 1, sampleDonation]
       = [samplePost ''a'' ''u1'' 1]
   \<and> filter (searchHit lowerAscii (units ''HELLO'')) [samplePost ''a'' ''u1'' 1, sampleDonation]
       = [samplePost ''a'' ''u1'' 1]
   \<and> filter (lowercaseHit (map lowerAscii) (units ''HELLO'')) [samplePost ''a'' ''u1'' 1, sampleDonation]
       = [samplePost ''a'' ''u1'' 1]"
proof -
  have h: "map lowerAscii (units ''HELLO'') = units ''hello''"
    "map lowerAscii (units ''Hello'') = units ''hello''"
    "map lowerAscii (units ''Algebra textbook'') = units ''algebra textbook''"
    "units ''HELLO'' \<noteq> []"
    by code_simp+
  have i: "string_includes (units ''hello'') (units ''hello'')"
    "\<not> string_includes (units ''algebra textbook'') (units ''hello'')"
    by code_simp+
  have b: "basicLatin (units ''HELLO'')" "basicLatin (units ''Hello'')"
    "basicLatin (units ''Algebra textbook'')"
    by code_simp+
  have l: "list_all (\<lambda>post. list_all basicLatin (searchedFields post))
             [samplePost ''a'' ''u1'' 1, sampleDonation]"
    by (simp add: searchedFields_def samplePost_def sampleDonation_def b)
  have "searchStep (map lowerAscii) (units ''HELLO'') [samplePost ''a'' ''u1'' 1, sampleDonation]
          = [samplePost ''a'' ''u1'' 1]"
    by (simp add: searchStep_def matchesSearch_def fieldIncludes_def samplePost_def sampleDonation_def h i)
  moreover note t = search_step [of "units ''HELLO''" "map lowerAscii"
      "[samplePost ''a'' ''u1'' 1, sampleDonation]" lowerAscii]
  moreover from t h(4)
  have "searchStep (map lowerAscii) (units ''HELLO'') [samplePost ''a'' ''u1'' 1, sampleDonation]
          = filter (lowercaseHit (map lowerAscii) (units ''HELLO'')) [samplePost ''a'' ''u1'' 1, sampleDonation]"
    by blast
  moreover from t h(4) b(1) l
  have "searchStep toLowerCase16 (units ''HELLO'') [samplePost ''a'' ''u1'' 1, sampleDonation]
          = filter (searchHit lowerAscii (units ''HELLO'')) [samplePost ''a'' ''u1'' 1, sampleDonation]"
    by blast
  moreover from t h(4)
  have "searchStep (map lowerAscii) (units ''HELLO'') [samplePost ''a'' ''u1'' 1, sampleDonation]
          = filter (searchHit lowerAscii (units ''HELLO'')) [samplePost ''a'' ''u1'' 1, sampleDonation]"
    by blast
  ultimately show ?thesis
    using h(4) b(1) l by metis
qed

text \<open>
  The claim as stated speaks of the case-insensitive substring, whatever the text. The
  built-in lower-casing is not one map on all units: a capital sigma at the end of a word
  becomes the final small sigma, a capital sigma alone the small sigma. A post whose
  content is the Greek capitals omicron, delta, omicron, sigma contains the query capital
  sigma literally, and the search drops it.
\<close>

theorem search_step_counterexample:
  "content sampleGreekPost = Some ([0x39F, 0x394, 0x39F] @ [0x3A3] @ [])
   \<and> searchStep toLowerCase16 [0x3A3] [sampleGreekPost] = []"
proof -
  have h: "toLowerCase16 [0x39F, 0x394, 0x39F, 0x3A3] = [0x3BF, 0x3B4, 0x3BF, 0x3C2]"
    "toLowerCase16 [0x3A3] = [0x3C3]"
    by code_simp+
  have i: "\<not> string_includes [0x3BF, 0x3B4, 0x3BF, 0x3C2] [0x3C3 :: nat]"
    by code_simp
  show ?thesis
    by (simp add: searchStep_def matchesSearch_def fieldIncludes_def sampleGreekPost_def samplePost_def h i)
qed

section \<open>Like toggle\<close>

lemma mergePost_likes: "mergePost p (emptyPatch\<lparr>patch_likes := Some l\<rparr>) = p\<lparr>likes := l\<rparr>"
  by (cases p) (simp add: mergePost_def emptyPatch_def spread_def)

lemma handleLikeToggle_state:
  "fst (handleLikeToggle (Some u) (Some pr) now isoNow remote post posts) =
     map (\<lambda>p. if post_id p = post_id post
              then p\<lparr>likes := optimisticLikes (uid u) now isoNow post\<rparr> else p) posts"
  by (simp add: handleLikeToggle_def updatePostInState_def mergePost_likes Let_def
      split: remote_result.splits)

lemma hasLiked_iff: "hasLiked v p = (v \<in> likeUserIds p)"
  by (auto simp: hasLiked_def likeUserIds_def list_ex_iff split: option.splits)

lemma likeUserIds_optimistic:
  "likeUserIds (p\<lparr>likes := optimisticLikes v now isoNow q\<rparr>) =
     (if v \<in> likeUserIds q then likeUserIds q - {v} else insert v (likeUserIds q))"
  by (auto simp: optimisticLikes_def hasLiked_iff likeUserIds_def split: option.splits)

text \<open>
  Claim C4. For a signed-in user with a profile and a post of the list, running the like
  toggle on the post and then again on the post as the list then holds it gives back the
  like set of the post: the same users hold a like on it as before. The answers of the
  remote calls play no part (\<open>remote1\<close> and \<open>remote2\<close> are arbitrary), and posts with
  another identifier are untouched.
\<close>

theorem like_toggle_twice:
  assumes "i < length posts"
  shows "let post = posts ! i;
             posts1 = fst (handleLikeToggle (Some u) (Some pr) now1 iso1 remote1 post posts);
             posts2 = fst (handleLikeToggle (Some u) (Some pr) now2 iso2 remote2 (posts1 ! i) posts1)
         in length posts2 = length posts
            \<and> likeUserIds (posts2 ! i) = likeUserIds (posts ! i)
            \<and> (\<forall>j<length posts. post_id (posts ! j) \<noteq> post_id (posts ! i) \<longrightarrow> posts2 ! j = posts ! j)"
proof -
  define post where "post = posts ! i"
  define posts1 where "posts1 = fst (handleLikeToggle (Some u) (Some pr) now1 iso1 remote1 post posts)"
  define post1 where "post1 = posts1 ! i"
  define posts2 where "posts2 = fst (handleLikeToggle (Some u) (Some pr) now2 iso2 remote2 post1 posts1)"
  have len1: "length posts1 = length posts"
    by (simp add: posts1_def handleLikeToggle_state)
  have p1: "post1 = post\<lparr>likes := optimisticLikes (uid u) now1 iso1 post\<rparr>"
    using assms by (simp add: post1_def posts1_def handleLikeToggle_state post_def)
  have id1: "post_id post1 = post_id post" by (simp add: p1)
  have len2: "length posts2 = length posts"
    by (simp add: posts2_def handleLikeToggle_state len1)
  have p2: "posts2 ! i = post1\<lparr>likes := optimisticLikes (uid u) now2 iso2 post1\<rparr>"
    using assms len1 by (simp add: posts2_def handleLikeToggle_state post1_def)
  have "likeUserIds (posts2 ! i) = likeUserIds post"
    unfolding p2 likeUserIds_optimistic unfolding p1 likeUserIds_optimistic by auto
  moreover have "posts2 ! j = posts ! j"
    if "j < length posts" "post_id (posts ! j) \<noteq> post_id post" for j
    using that len1 id1 by (simp add: posts2_def posts1_def handleLikeToggle_state)
  ultimately show ?thesis
    using len2 by (simp add: Let_def post_def posts1_def posts2_def post1_def)
qed

text \<open>
  The user \<open>u2\<close> toggles twice on a post that \<open>u2\<close> and \<open>u3\<close> like; the notification
  call of the first run throws, every call of the second run resolves.
\<close>

theorem like_toggle_twice_witness:
  "let posts = [sampleLikedPost];
       posts1 = fst (handleLikeToggle (Some \<lparr>uid = ''u2''\<rparr>) (Some sampleStudent) 8 ''t1'' notifyThrows
                       (posts ! 0) posts);
       posts2 = fst (handleLikeToggle (Some \<lparr>uid = ''u2''\<rparr>) (Some sampleStudent) 9 ''t2'' allResolve
                       (posts1 ! 0) posts1)
   in likeUserIds (posts ! 0) = {''u2'', ''u3''} \<and> likeUserIds (posts2 ! 0) = {''u2'', ''u3''}"
  using like_toggle_twice [of 0 "[sampleLikedPost]"
      "\<lparr>uid = ''u2''\<rparr>" sampleStudent 8 "''t1''" notifyThrows 9 "''t2''" allResolve]
  by (simp add: Let_def likeUserIds_def sampleLike_def sampleLikedPost_def insert_commute)

text \<open>
  Claim C3, as the code has it. When the user did not like the post before, the insert
  call returns and the post's author is another user, the handler sends the \<open>like\<close>
  notification request. An error that the request reports in its result is ignored: the
  trace ends with the request. A request that throws is caught by the handler's only
  \<open>catch\<close>, which shows an error toast and requests a refetch.
\<close>

theorem like_notification:
  assumes "\<not> hasLiked (uid u) post"
    and "remote (LikesInsert (post_id post) (uid u)) = Resolved r"
    and "user_id post \<noteq> uid u"
  shows "let ins = LikesInsert (post_id post) (uid u);
             notify = CreateNotification (user_id post) ''like'' (uid u) (post_id post);
             eff = snd (handleLikeToggle (Some u) (Some pr) now isoNow remote post posts)
         in Remote notify \<in> set eff
            \<and> (case remote notify of
                  Resolved r' \<Rightarrow> eff = [Remote ins, Remote notify]
                | Rejected e \<Rightarrow>
                    eff = [Remote ins, Remote notify,
                           ToastError (messageOr e ''Could not update like.''), FetchPosts])"
  using assms by (simp add: handleLikeToggle_def Let_def split: remote_result.splits)

text \<open>A notification request that resolves with an error: nothing follows it.\<close>

theorem like_notification_witness:
  "snd (handleLikeToggle (Some \<lparr>uid = ''u2''\<rparr>) (Some sampleStudent) 5 ''t'' notifyFails
          (samplePost ''p1'' ''u1'' 1) [samplePost ''p1'' ''u1'' 1])
     = [Remote (LikesInsert ''p1'' ''u2''), Remote (CreateNotification ''u1'' ''like'' ''u2'' ''p1'')]"
  using like_notification [of "\<lparr>uid = ''u2''\<rparr>" "samplePost ''p1'' ''u1'' 1" notifyFails None
      sampleStudent 5 "''t''" "[samplePost ''p1'' ''u1'' 1]"]
  by (simp add: hasLiked_def samplePost_def notifyFails_def Let_def)

text \<open>
  The claim as stated says that a failure of the notification call is never surfaced.
  When the call throws, the user sees an error toast and the posts are fetched again.
\<close>

theorem like_notification_throw_counterexample:
  "snd (handleLikeToggle (Some \<lparr>uid = ''u2''\<rparr>) (Some sampleStudent) 5 ''t'' notifyThrows
          (samplePost ''p1'' ''u1'' 1) [samplePost ''p1'' ''u1'' 1])
     = [Remote (LikesInsert ''p1'' ''u2''), Remote (CreateNotification ''u1'' ''like'' ''u2'' ''p1''),
        ToastError ''rpc failed'', FetchPosts]"
  by (simp add: handleLikeToggle_def hasLiked_def samplePost_def notifyThrows_def Let_def messageOr_def)


section \<open>Add comment\<close>

lemma addCommentPreconditions_Some:
  assumes "user = Some u" and "profile = Some pr" and "newComments postId = Some raw"
    and "trim raw \<noteq> []"
  shows "addCommentPreconditions user profile newComments postId = Some (u, pr, trim raw)"
  using assms by (simp add: addCommentPreconditions_def)

lemma appendComment_nth:
  assumes "i < length posts"
  shows "appendComment postId c posts ! i =
           (if post_id (posts ! i) = postId
            then (posts ! i)\<lparr>comments := Some (commentsOf (posts ! i) @ [c])\<rparr>
            else posts ! i)"
  using assms by (simp add: appendComment_def commentsOf_def)

text \<open>
  Claim C10. When add-comment passes its preconditions (a user, a profile, a pending text
  for the post that is not empty once trimmed), the optimistic apply keeps the length and
  the order of the post list; a post with the target identifier gets exactly the
  synthesized comment appended at the end of its comments and is otherwise unchanged
  (putting its old comments back gives the old post); every other post is unchanged.
\<close>

theorem add_comment_optimistic_frame:
  assumes "user = Some u" and "profile = Some pr" and "newComments postId = Some raw"
    and "trim raw \<noteq> []"
  shows "let c = optimisticComment tmpId isoNow postId u pr (trim raw);
             posts' = fst (addCommentOptimistic user profile newComments tmpId isoNow postId posts)
         in length posts' = length posts
            \<and> (\<forall>i<length posts.
                  if post_id (posts ! i) = postId
                  then comments (posts' ! i) = Some (commentsOf (posts ! i) @ [c])
                       \<and> (posts' ! i)\<lparr>comments := comments (posts ! i)\<rparr> = posts ! i
                  else posts' ! i = posts ! i)"
proof -
  have "addCommentPreconditions user profile newComments postId = Some (u, pr, trim raw)"
    using assms by (rule addCommentPreconditions_Some)
  then have "fst (addCommentOptimistic user profile newComments tmpId isoNow postId posts)
          = appendComment postId (optimisticComment tmpId isoNow postId u pr (trim raw)) posts"
    by (simp add: addCommentOptimistic_def)
  then show ?thesis
    by (simp add: Let_def appendComment_nth) (simp add: appendComment_def)
qed

text \<open>Two posts, a comment on the first: the first gains the comment, the second is as before.\<close>

theorem add_comment_optimistic_frame_witness:
  "trim '' hi '' \<noteq> []
   \<and> comments (fst (addCommentOptimistic (Some \<lparr>uid = ''u2''\<rparr>) (Some sampleStudent)
                      [''p1'' \<mapsto> '' hi ''] ''tmp'' ''t'' ''p1''
                      [(samplePost ''p1'' ''u1'' 5)\<lparr>comments := Some [sampleComment ''c1'']\<rparr>,
                       samplePost ''p2'' ''u1'' 6]) ! 0)
       = Some [sampleComment ''c1'',
               optimisticComment ''tmp'' ''t'' ''p1'' \<lparr>uid = ''u2''\<rparr> sampleStudent ''hi'']
   \<and> fst (addCommentOptimistic (Some \<lparr>uid = ''u2''\<rparr>) (Some sampleStudent)
            [''p1'' \<mapsto> '' hi ''] ''tmp'' ''t'' ''p1''
            [(samplePost ''p1'' ''u1'' 5)\<lparr>comments := Some [sampleComment ''c1'']\<rparr>,
             samplePost ''p2'' ''u1'' 6]) ! 1
       = samplePost ''p2'' ''u1'' 6"
proof -
  have tr: "trim '' hi '' = ''hi''" by (simp add: trim_def isWhiteSpace_def)
  show ?thesis
    using add_comment_optimistic_frame [where user = "Some \<lparr>uid = ''u2''\<rparr>" and u = "\<lparr>uid = ''u2''\<rparr>"
        and profile = "Some sampleStudent" and pr = sampleStudent
        and newComments = "[''p1'' \<mapsto> '' hi '']" and postId = "''p1''" and raw = "'' hi ''"
        and tmpId = "''tmp''" and isoNow = "''t''"
        and posts = "[(samplePost ''p1'' ''u1'' 5)\<lparr>comments := Some [sampleComment ''c1'']\<rparr>,
                      samplePost ''p2'' ''u1'' 6]"]
    by (simp add: tr Let_def samplePost_def commentsOf_def)
qed

lemma rollbackComment_nth:
  assumes "i < length prevPosts"
  shows "rollbackComment postId tmpId prevPosts ! i =
           (if post_id (prevPosts ! i) = postId
            then (prevPosts ! i)\<lparr>comments :=
                   map_option (filter (\<lambda>k. comment_id k \<noteq> tmpId)) (comments (prevPosts ! i))\<rparr>
            else prevPosts ! i)"
  using assms by (simp add: rollbackComment_def)

lemma filter_fresh:
  assumes "tmpId \<notin> comment_id ` set cs"
  shows "filter (\<lambda>k. comment_id k \<noteq> tmpId) cs = cs"
  using assms by (induction cs) auto

lemma rollback_after_append:
  assumes "\<forall>p\<in>set posts. post_id p = postId \<longrightarrow> comment_id c \<notin> comment_id ` set (commentsOf p)"
  shows "rollbackComment postId (comment_id c) (appendComment postId c posts) =
           map (\<lambda>p. if post_id p = postId then p\<lparr>comments := Some (commentsOf p)\<rparr> else p) posts"
proof -
  have "(if post_id p = postId
         then (p\<lparr>comments := Some (commentsOf p @ [c])\<rparr>)\<lparr>comments :=
                 Some (filter (\<lambda>k. comment_id k \<noteq> comment_id c) (commentsOf p @ [c]))\<rparr>
         else p)
        = (if post_id p = postId then p\<lparr>comments := Some (commentsOf p)\<rparr> else p)"
    if "p \<in> set posts" for p
    using that assms by (simp add: filter_fresh)
  then show ?thesis
    unfolding rollbackComment_def appendComment_def
    by (simp add: commentsOf_def o_def if_distrib [of "\<lambda>q. post_id q"] cong: if_cong)
qed

text \<open>
  When the comment insert resolves with an error in its result, the handler shows the
  error and rolls back on the post list of that moment: in every post with the target
  identifier the comments that carry the temporary identifier are removed and all other
  comments stay, in their order; the other fields of the post and all other posts are
  unchanged; no refetch is requested.
\<close>

lemma add_comment_error_rollback:
  assumes "remote (CommentsInsert postId (uid u) commentText) = Resolved (Some e)"
  shows "let posts' = fst (addCommentSettled u commentText c remote postId posts prevPosts);
             eff = snd (addCommentSettled u commentText c remote postId posts prevPosts)
         in eff = [ToastError (messageOr e ''Failed to add comment.'')]
            \<and> FetchPosts \<notin> set eff
            \<and> length posts' = length prevPosts
            \<and> (\<forall>i<length prevPosts.
                  if post_id (prevPosts ! i) = postId
                  then comments (posts' ! i)
                         = map_option (filter (\<lambda>k. comment_id k \<noteq> comment_id c)) (comments (prevPosts ! i))
                       \<and> (posts' ! i)\<lparr>comments := comments (prevPosts ! i)\<rparr> = prevPosts ! i
                  else posts' ! i = prevPosts ! i)"
proof -
  have "addCommentSettled u commentText c remote postId posts prevPosts
          = (rollbackComment postId (comment_id c) prevPosts,
             [ToastError (messageOr e ''Failed to add comment.'')])"
    using assms by (simp add: addCommentSettled_def)
  then show ?thesis
    by (simp add: Let_def rollbackComment_nth) (simp add: rollbackComment_def)
qed

text \<open>A post with three comments, the middle one synthesized: the rollback removes that one only.\<close>

lemma add_comment_error_rollback_example:
  "insertFails (CommentsInsert ''p1'' ''u2'' ''hi'') = Resolved (Some (JsError (Some ''row refused'')))
   \<and> addCommentSettled \<lparr>uid = ''u2''\<rparr> ''hi'' (sampleComment ''tmp'') insertFails ''p1'' []
        [(samplePost ''p1'' ''u1'' 5)\<lparr>comments :=
            Some [sampleComment ''c1'', sampleComment ''tmp'', sampleComment ''c2'']\<rparr>]
       = ([(samplePost ''p1'' ''u1'' 5)\<lparr>comments := Some [sampleComment ''c1'', sampleComment ''c2'']\<rparr>],
          [ToastError ''row refused''])"
proof -
  have f: "insertFails (CommentsInsert ''p1'' (uid \<lparr>uid = ''u2''\<rparr>) ''hi'')
             = Resolved (Some (JsError (Some ''row refused'')))"
    by (simp add: insertFails_def)
  show ?thesis
    using f add_comment_error_rollback [where remote = insertFails and postId = "''p1''"
        and u = "\<lparr>uid = ''u2''\<rparr>" and commentText = "''hi''"
        and e = "JsError (Some ''row refused'')" and c = "sampleComment ''tmp''" and posts = "[]"
        and prevPosts = "[(samplePost ''p1'' ''u1'' 5)\<lparr>comments :=
                             Some [sampleComment ''c1'', sampleComment ''tmp'', sampleComment ''c2'']\<rparr>]"]
    by (simp add: Let_def insertFails_def addCommentSettled_def rollbackComment_def
        samplePost_def sampleComment_def messageOr_def)
qed

text \<open>
  Claim C5: when the remote comment insert fails, the rollback removes exactly the
  synthesized comment from the comments of the target post. The rollback stands inside
  \<open>if (error)\<close>, behind the awaited insert. An insert call that throws reaches the \<open>catch\<close>
  without passing it: the user \<open>u2\<close> comments \<open>hi\<close> on a post with one comment, the insert
  throws, and the run ends with the error toast and with the synthesized comment still in
  the comments of the post.
\<close>

theorem add_comment_insert_throws:
  "insertThrows (CommentsInsert ''p1'' ''u2'' ''hi'') = Rejected (JsError (Some ''network down''))
   \<and> handleAddComment (Some \<lparr>uid = ''u2''\<rparr>) (Some sampleStudent) [''p1'' \<mapsto> ''hi''] ''tmp'' ''t''
        insertThrows ''p1'' [(samplePost ''p1'' ''u1'' 5)\<lparr>comments := Some [sampleComment ''c1'']\<rparr>]
       = ([(samplePost ''p1'' ''u1'' 5)\<lparr>comments := Some [sampleComment ''c1'',
              optimisticComment ''tmp'' ''t'' ''p1'' \<lparr>uid = ''u2''\<rparr> sampleStudent ''hi'']\<rparr>],
          [''p1'' \<mapsto> []],
          [Remote (CommentsInsert ''p1'' ''u2'' ''hi''), ToastError ''network down''])"
proof -
  have tr: "trim ''hi'' = ''hi''" by (simp add: trim_def isWhiteSpace_def)
  show ?thesis
    by (simp add: handleAddComment_def addCommentOptimistic_def addCommentPreconditions_def tr
        addCommentSettled_def insertThrows_def appendComment_def samplePost_def messageOr_def)
qed

text \<open>
  With a temporary identifier that no comment of the target post carries, one whole run
  that ends in the rollback leaves every comment list as it was.
\<close>

lemma add_comment_error_round_trip:
  assumes "user = Some u" and "profile = Some pr" and "newComments postId = Some raw"
    and "trim raw \<noteq> []"
    and "remote (CommentsInsert postId (uid u) (trim raw)) = Resolved (Some e)"
    and "\<forall>p\<in>set posts. post_id p = postId \<longrightarrow> tmpId \<notin> comment_id ` set (commentsOf p)"
  shows "fst (handleAddComment user profile newComments tmpId isoNow remote postId posts)
           = map (\<lambda>p. if post_id p = postId then p\<lparr>comments := Some (commentsOf p)\<rparr> else p) posts"
proof -
  have pre: "addCommentPreconditions user profile newComments postId = Some (u, pr, trim raw)"
    using assms(1-4) by (rule addCommentPreconditions_Some)
  let ?c = "optimisticComment tmpId isoNow postId u pr (trim raw)"
  have id: "comment_id ?c = tmpId" by (simp add: optimisticComment_def)
  have "fst (handleAddComment user profile newComments tmpId isoNow remote postId posts)
          = rollbackComment postId (comment_id ?c) (appendComment postId ?c posts)"
    using assms(5) by (simp add: handleAddComment_def addCommentOptimistic_def pre addCommentSettled_def)
  also have "\<dots> = map (\<lambda>p. if post_id p = postId then p\<lparr>comments := Some (commentsOf p)\<rparr> else p) posts"
    using assms(6) by (intro rollback_after_append) (simp add: id)
  finally show ?thesis .
qed

section \<open>Resource claim\<close>







end
